theory Spec2Isabelle
  imports Main
begin

section \<open>The filter-query parser of \<^verbatim>\<open>src/helpers/parser.ts\<close>\<close>

text \<open>
  The class \<^verbatim>\<open>Parser\<close> turns a query string such as
  \<^verbatim>\<open>s:isbn13:=:9783111108346,s:marking:!=:[pencil,stickers]\<close> into a list of
  filter descriptors. \<^verbatim>\<open>extract\<close> scans the string one character at a time, mutating
  the fields of the instance, and hands every finished clause to \<^verbatim>\<open>transform\<close>, which
  checks the operator against the declared type and converts the raw value text.

  The embedding follows the class member by member. The instance is a record that every
  operation takes and returns; a \<^verbatim>\<open>throw\<close> is an error value paired with the instance as
  the throw leaves it.
\<close>

subsection \<open>Enumerations\<close>

text \<open>
  \<^verbatim>\<open>enum Operator\<close> of \<^verbatim>\<open>src/enums/operator.enum.ts\<close>, in declaration order, with the
  string each member stands for.
\<close>

datatype Operator =
    Op_gt | Op_gte | Op_eq | Op_ne | Op_is | Op_isNot | Op_lt | Op_lte
  | Op_regex | Op_notRegex | Op_between | Op_notBetween | Op_in | Op_notIn

fun Operator_token :: "Operator \<Rightarrow> string" where
  "Operator_token Op_gt = ''>''"
| "Operator_token Op_gte = ''>=''"
| "Operator_token Op_eq = ''=''"
| "Operator_token Op_ne = ''!=''"
| "Operator_token Op_is = ''!!''"
| "Operator_token Op_isNot = ''!''"
| "Operator_token Op_lt = ''<''"
| "Operator_token Op_lte = ''<=''"
| "Operator_token Op_regex = ''~''"
| "Operator_token Op_notRegex = ''!~''"
| "Operator_token Op_between = ''><''"
| "Operator_token Op_notBetween = ''>!<''"
| "Operator_token Op_in = ''<>''"
| "Operator_token Op_notIn = ''<!>''"

definition Operator_values :: "Operator list" where
  "Operator_values =
     [Op_gt, Op_gte, Op_eq, Op_ne, Op_is, Op_isNot, Op_lt, Op_lte,
      Op_regex, Op_notRegex, Op_between, Op_notBetween, Op_in, Op_notIn]"

text \<open>
  \<^verbatim>\<open>enum DataType\<close>. Its file, \<^verbatim>\<open>src/enums/data-type.enum.ts\<close>, is not among the
  sources; the members are the ones \<^verbatim>\<open>transform\<close> names, and their strings are the ones
  the header comment of \<^verbatim>\<open>parser.ts\<close> lists (\<^verbatim>\<open>'s'\<close>, \<^verbatim>\<open>'b'\<close>, \<^verbatim>\<open>'n'\<close>, \<^verbatim>\<open>'d'\<close>,
  \<^verbatim>\<open>'v'\<close>), which are also those of the compiled \<^verbatim>\<open>dist/enums/type.enum.js\<close>.
\<close>

datatype DataType = DT_string | DT_boolean | DT_number | DT_date | DT_void

fun DataType_token :: "DataType \<Rightarrow> string" where
  "DataType_token DT_string = ''s''"
| "DataType_token DT_boolean = ''b''"
| "DataType_token DT_number = ''n''"
| "DataType_token DT_date = ''d''"
| "DataType_token DT_void = ''v''"

definition DataType_values :: "DataType list" where
  "DataType_values = [DT_string, DT_boolean, DT_number, DT_date, DT_void]"

subsection \<open>Descriptors, errors and the instance\<close>

text \<open>
  A filter object. \<^verbatim>\<open>this.filter\<close> starts as \<^verbatim>\<open>{}\<close>: a property that is absent
  (\<^verbatim>\<open>undefined\<close>) is \<open>None\<close>, and \<^verbatim>\<open>multi\<close>, which is only ever assigned \<^verbatim>\<open>true\<close>, is
  \<open>False\<close> while absent. The type of the value differs along the way: nothing while
  the clause is being read, the joined text when the object is passed to
  \<^verbatim>\<open>transform\<close>, a converted value in the result.
\<close>

record 'v FilterQuery =
  fq_type :: "DataType option"
  fq_field :: "string option"
  fq_operator :: "Operator option"
  fq_multi :: bool
  fq_delimiter :: "char option"
  fq_value :: 'v

text \<open>The values \<^verbatim>\<open>transform\<close> produces; \<open>'n\<close> is the type of JavaScript numbers.\<close>

datatype 'n jsvalue =
    VString string
  | VStrings "string list"
  | VBoolean bool
  | VNumber 'n
  | VNumbers "'n list"
  | VNull

text \<open>
  Every \<^verbatim>\<open>throw new Error(...)\<close> of the class, one constructor per message, with the
  parts the message interpolates. \<open>JSONSyntaxError\<close> is the \<^verbatim>\<open>SyntaxError\<close> that
  \<^verbatim>\<open>JSON.parse\<close> raises.
\<close>

datatype error =
    UnexpectedOperatorForString "Operator option"
  | UnexpectedOperatorForBoolean "Operator option"
  | UnexpectedValueForBoolean string
  | InvalidValueTypes
  | ExpectingOneNumeric nat
  | ExpectingOneDate nat
  | WrongNumberOfArguments nat
  | InvalidOperatorType "Operator option" "string option"
  | InvalidValueTypeVoid string
  | UnexpectedValueForVoid string
  | JSONSyntaxError string
  | MalformedUnbalanced
  | InvalidType
  | NotAllowedKey string
  | InvalidOperator
  | UnexpectedCharacter
  | InvalidEscapedCharacter char
  | MalformedMissing "DataType option"

text \<open>
  \<^verbatim>\<open>ParserOptions\<close> (its interface file is not among the sources; the class reads only
  \<^verbatim>\<open>allowedKeys\<close>, a list of strings).
\<close>

record ParserOptions =
  allowedKeys :: "string list"

text \<open>
  The functions of the JavaScript runtime that \<^verbatim>\<open>transform\<close> calls on value text: unary
  plus on a string, and \<^verbatim>\<open>Date.parse\<close>. Both return a number, \<^verbatim>\<open>NaN\<close> when the text
  does not parse; \<open>None\<close> stands for \<^verbatim>\<open>NaN\<close>. They are parameters of the model, so
  every general theorem below holds for whatever these two functions do.
\<close>

record 'n runtime =
  toNumber :: "string \<Rightarrow> 'n option"
  Date_parse :: "string \<Rightarrow> 'n option"

text \<open>
  The instance fields. \<^verbatim>\<open>stack\<close> is an array of one-character strings that is only
  ever read through \<^verbatim>\<open>join('')\<close> and \<^verbatim>\<open>length\<close>, so it is the string of its characters.
\<close>

record 'n Parser =
  opts :: ParserOptions
  buffer :: "'n jsvalue FilterQuery list"
  filter' :: "unit FilterQuery"
  stack :: string
  chr :: string
  escaped :: bool

definition defaults :: ParserOptions where
  "defaults = \<lparr>allowedKeys = [''*'']\<rparr>"

definition empty_filter :: "unit FilterQuery" where
  "empty_filter = \<lparr>fq_type = None, fq_field = None, fq_operator = None, fq_multi = False,
                    fq_delimiter = None, fq_value = ()\<rparr>"

text \<open>
  The constructor sets \<^verbatim>\<open>opts\<close> and \<^verbatim>\<open>buffer\<close>; the other fields hold \<^verbatim>\<open>undefined\<close> until
  the first \<^verbatim>\<open>reset\<close>, shown here as empty.
\<close>

definition new_Parser :: "'n Parser" where
  "new_Parser = \<lparr>opts = defaults, buffer = [], filter' = empty_filter, stack = [],
                  chr = [], escaped = False\<rparr>"

definition reset :: "'n Parser \<Rightarrow> 'n Parser" where
  "reset p = p\<lparr>filter' := empty_filter, escaped := False, chr := [], stack := []\<rparr>"

definition isValidKey :: "'n Parser \<Rightarrow> string \<Rightarrow> bool" where
  "isValidKey p target =
     (''*'' \<in> set (allowedKeys (opts p)) \<or> target \<in> set (allowedKeys (opts p)))"

definition getFilterOperator :: "string \<Rightarrow> Operator option" where
  "getFilterOperator target = find (\<lambda>operator. Operator_token operator = target) Operator_values"

definition getFilterType :: "string \<Rightarrow> DataType option" where
  "getFilterType target = find (\<lambda>t. DataType_token t = target) DataType_values"

definition isRangeTypeOperator :: "Operator option \<Rightarrow> bool" where
  "isRangeTypeOperator op = (Some Op_between = op \<or> Some Op_notBetween = op)"

definition hasOneOfRangeTypeOperator :: "Operator option \<Rightarrow> bool" where
  "hasOneOfRangeTypeOperator op =
     (Some Op_eq = op \<or> Some Op_ne = op \<or> Some Op_gt = op \<or> Some Op_gte = op \<or>
      Some Op_lt = op \<or> Some Op_lte = op \<or> Some Op_in = op \<or> Some Op_notIn = op)"

definition forStringTypeOperator :: "Operator option \<Rightarrow> bool" where
  "forStringTypeOperator target =
     list_ex (\<lambda>op. Some op = target) [Op_eq, Op_ne, Op_in, Op_notIn, Op_regex, Op_notRegex]"

text \<open>JavaScript truthiness of the \<^verbatim>\<open>field\<close> property: absent and \<^verbatim>\<open>''\<close> are falsy.\<close>

definition truthy :: "string option \<Rightarrow> bool" where
  "truthy s = (case s of None \<Rightarrow> False | Some t \<Rightarrow> t \<noteq> [])"

subsection \<open>\<^verbatim>\<open>transform\<close>\<close>

text \<open>
  \<^verbatim>\<open>String.prototype.split\<close> with a one-character separator: the pieces between the
  occurrences of the separator, empty pieces kept, so the empty string gives one empty
  piece. With the separator \<^verbatim>\<open>undefined\<close> the result is the whole string as one piece.
\<close>

fun split_acc :: "char \<Rightarrow> string \<Rightarrow> string \<Rightarrow> string list" where
  "split_acc d cur [] = [cur]"
| "split_acc d cur (c # cs) =
     (if c = d then cur # split_acc d [] cs else split_acc d (cur @ [c]) cs)"

definition split :: "char option \<Rightarrow> string \<Rightarrow> string list" where
  "split sep s = (case sep of None \<Rightarrow> [s] | Some d \<Rightarrow> split_acc d [] s)"

text \<open>
  \<^verbatim>\<open>JSON.parse\<close> on the four strings that reach it in \<^verbatim>\<open>transform\<close>: \<^verbatim>\<open>true\<close>,
  \<^verbatim>\<open>false\<close> and \<^verbatim>\<open>null\<close> are JSON literals; \<^verbatim>\<open>undefined\<close> is not JSON text, and
  \<^verbatim>\<open>JSON.parse('undefined')\<close> raises a \<^verbatim>\<open>SyntaxError\<close>. No other string is passed.
\<close>

definition JSON_parse :: "string \<Rightarrow> error + 'n jsvalue" where
  "JSON_parse s =
     (if s = ''true'' then Inr (VBoolean True)
      else if s = ''false'' then Inr (VBoolean False)
      else if s = ''null'' then Inr VNull
      else Inl (JSONSyntaxError s))"

text \<open>\<^verbatim>\<open>{ ...filter, value: v }\<close>.\<close>

definition with_value :: "'a FilterQuery \<Rightarrow> 'b \<Rightarrow> 'b FilterQuery" where
  "with_value f v =
     \<lparr>fq_type = fq_type f, fq_field = fq_field f, fq_operator = fq_operator f,
      fq_multi = fq_multi f, fq_delimiter = fq_delimiter f, fq_value = v\<rparr>"

text \<open>
  The number and the date branch differ in the parsing function, in the message of the
  one-value check and in what the non-multi case returns: the number branch returns
  \<^verbatim>\<open>{ ...filter, value: nums.pop() }\<close>, the date branch returns \<^verbatim>\<open>filter\<close> itself, whose
  value is still the raw text.
\<close>

definition transform :: "'n runtime \<Rightarrow> string FilterQuery \<Rightarrow> error + 'n jsvalue FilterQuery" where
  "transform rt f =
     (if fq_type f = Some DT_string then
        (if \<not> forStringTypeOperator (fq_operator f)
         then Inl (UnexpectedOperatorForString (fq_operator f))
         else if fq_multi f
         then Inr (with_value f (VStrings (split (fq_delimiter f) (fq_value f))))
         else Inr (with_value f (VString (fq_value f))))
      else if fq_type f = Some DT_boolean then
        (if Some Op_eq \<noteq> fq_operator f \<and> Some Op_ne \<noteq> fq_operator f
         then Inl (UnexpectedOperatorForBoolean (fq_operator f))
         else if fq_value f \<noteq> ''true'' \<and> fq_value f \<noteq> ''false''
         then Inl (UnexpectedValueForBoolean (fq_value f))
         else (case JSON_parse (fq_value f) of
                 Inl e \<Rightarrow> Inl e
               | Inr v \<Rightarrow> Inr (with_value f v)))
      else if fq_type f = Some DT_number then
        (case those (map (toNumber rt) (split (fq_delimiter f) (fq_value f))) of
           None \<Rightarrow> Inl InvalidValueTypes
         | Some nums \<Rightarrow>
            (if \<not> fq_multi f then
               (if length nums \<noteq> 1 then Inl (ExpectingOneNumeric (length nums))
                else Inr (with_value f (VNumber (last nums))))
             else if isRangeTypeOperator (fq_operator f) \<and> length nums \<noteq> 2
             then Inl (WrongNumberOfArguments (length nums))
             else if \<not> isRangeTypeOperator (fq_operator f)
                     \<and> \<not> hasOneOfRangeTypeOperator (fq_operator f)
             then Inl (InvalidOperatorType (fq_operator f) (fq_field f))
             else Inr (with_value f (VNumbers nums))))
      else if fq_type f = Some DT_date then
        (case those (map (Date_parse rt) (split (fq_delimiter f) (fq_value f))) of
           None \<Rightarrow> Inl InvalidValueTypes
         | Some dates \<Rightarrow>
            (if \<not> fq_multi f then
               (if length dates \<noteq> 1 then Inl (ExpectingOneDate (length dates))
                else Inr (with_value f (VString (fq_value f))))
             else if isRangeTypeOperator (fq_operator f) \<and> length dates \<noteq> 2
             then Inl (WrongNumberOfArguments (length dates))
             else if \<not> isRangeTypeOperator (fq_operator f)
                     \<and> \<not> hasOneOfRangeTypeOperator (fq_operator f)
             then Inl (InvalidOperatorType (fq_operator f) (fq_field f))
             else Inr (with_value f (VNumbers dates))))
      else if fq_type f = Some DT_void then
        (if Some Op_is \<noteq> fq_operator f \<and> Some Op_isNot \<noteq> fq_operator f
         then Inl (InvalidValueTypeVoid (fq_value f))
         else if fq_value f \<noteq> ''null'' \<and> fq_value f \<noteq> ''undefined''
         then Inl (UnexpectedValueForVoid (fq_value f))
         else (case JSON_parse (fq_value f) of
                 Inl e \<Rightarrow> Inl e
               | Inr v \<Rightarrow> Inr (with_value f v)))
      else Inr (with_value f (VString (fq_value f))))"

subsection \<open>\<^verbatim>\<open>extract\<close>\<close>

text \<open>
  One turn of the \<^verbatim>\<open>for\<close> loop, for the character \<open>c\<close>. The result is the error thrown,
  if any, and the instance as the turn leaves it.
\<close>

definition push_transformed ::
  "'n runtime \<Rightarrow> string FilterQuery \<Rightarrow> 'n Parser \<Rightarrow> error option \<times> 'n Parser" where
  "push_transformed rt f p =
     (case transform rt f of
        Inl e \<Rightarrow> (Some e, p)
      | Inr q \<Rightarrow> (None, p\<lparr>buffer := buffer p @ [q]\<rparr>))"

definition and_reset :: "error option \<times> 'n Parser \<Rightarrow> error option \<times> 'n Parser" where
  "and_reset r = (case r of (None, p) \<Rightarrow> (None, reset p) | (Some e, p) \<Rightarrow> (Some e, p))"

definition step :: "'n runtime \<Rightarrow> char \<Rightarrow> 'n Parser \<Rightarrow> error option \<times> 'n Parser" where
  "step rt c p0 =
     (let p = p0\<lparr>chr := [c]\<rparr>; f = filter' p in
      if c = CHR '':'' then
        (if \<not> escaped p then
           (if fq_multi f then (Some MalformedUnbalanced, p)
            else if fq_type f = None then
              (let p1 = p\<lparr>filter' := f\<lparr>fq_type := getFilterType (stack p)\<rparr>\<rparr> in
               if fq_type (filter' p1) = None then (Some InvalidType, p1)
               else (None, p1\<lparr>stack := []\<rparr>))
            else if \<not> truthy (fq_field f) then
              (let p1 = p\<lparr>filter' := f\<lparr>fq_field := Some (stack p)\<rparr>\<rparr> in
               if \<not> isValidKey p1 (stack p) then (Some (NotAllowedKey (stack p)), p1)
               else (None, p1\<lparr>stack := []\<rparr>))
            else if fq_operator f = None then
              (let p1 = p\<lparr>filter' := f\<lparr>fq_operator := getFilterOperator (stack p)\<rparr>\<rparr> in
               if fq_operator (filter' p1) = None then (Some InvalidOperator, p1)
               else (None, p1\<lparr>stack := []\<rparr>))
            else (Some UnexpectedCharacter, p))
         else (None, p\<lparr>stack := stack p @ [c], escaped := False\<rparr>))
      else if c = CHR ''|'' \<or> c = CHR '','' then
        (if escaped p then (Some (InvalidEscapedCharacter c), p)
         else if stack p \<noteq> [] \<and> \<not> fq_multi f then
           (if fq_type f \<noteq> None \<and> truthy (fq_field f) \<and> fq_operator f = None
            then (Some (MalformedMissing (fq_type f)), p)
            else and_reset (push_transformed rt (with_value f (stack p)) p))
         else if fq_multi f then (None, p\<lparr>stack := stack p @ [c]\<rparr>)
         else (None, p))
      else if c = CHR '']'' \<or> c = CHR '')'' then
        (if escaped p then (Some (InvalidEscapedCharacter c), p)
         else and_reset (push_transformed rt
                 ((with_value f (stack p))
                    \<lparr>fq_delimiter := Some (if c = CHR '')'' then CHR ''|'' else CHR '','')\<rparr>) p))
      else if c = CHR ''['' \<or> c = CHR ''('' then
        (if escaped p then (Some (InvalidEscapedCharacter c), p)
         else (None, p\<lparr>filter' := f\<lparr>fq_multi := True\<rparr>, stack := []\<rparr>))
      else if c = CHR 0x5C then (None, p\<lparr>escaped := True\<rparr>)
      else (None, p\<lparr>stack := stack p @ [c]\<rparr>))"

text \<open>The loop over the characters of \<^verbatim>\<open>str\<close>; it stops at the first throw.\<close>

fun scan :: "'n runtime \<Rightarrow> string \<Rightarrow> 'n Parser \<Rightarrow> error option \<times> 'n Parser" where
  "scan rt [] p = (None, p)"
| "scan rt (c # cs) p =
     (case step rt c p of
        (Some e, q) \<Rightarrow> (Some e, q)
      | (None, q) \<Rightarrow> scan rt cs q)"

text \<open>
  The statements before the loop: a fresh output list, the options, \<^verbatim>\<open>reset()\<close>.
  \<^verbatim>\<open>this.buffer = []\<close> installs a new array, so the list an earlier call has returned
  is left as it was.
\<close>

definition merge_options :: "ParserOptions option \<Rightarrow> ParserOptions" where
  "merge_options options = (case options of None \<Rightarrow> defaults | Some o' \<Rightarrow> o')"

definition start :: "ParserOptions option \<Rightarrow> 'n Parser \<Rightarrow> 'n Parser" where
  "start options p = reset (p\<lparr>buffer := [], opts := merge_options options\<rparr>)"

text \<open>The statements after the loop (``handle any remaining characters in the stack'').\<close>

definition finish ::
  "'n runtime \<Rightarrow> 'n Parser \<Rightarrow> (error + 'n jsvalue FilterQuery list) \<times> 'n Parser" where
  "finish rt p =
     (let f = filter' p in
      if stack p \<noteq> [] \<and> (truthy (fq_field f) \<or> fq_operator f \<noteq> None) then
        (if fq_multi f then (Inl MalformedUnbalanced, p)
         else (case push_transformed rt (with_value f (stack p)) p of
                 (Some e, q) \<Rightarrow> (Inl e, q)
               | (None, q) \<Rightarrow> (Inr (buffer q), q)))
      else (Inr (buffer p), p))"

definition extract' ::
  "'n runtime \<Rightarrow> string \<Rightarrow> ParserOptions option \<Rightarrow> 'n Parser
     \<Rightarrow> (error + 'n jsvalue FilterQuery list) \<times> 'n Parser" where
  "extract' rt str options p =
     (case scan rt str (start options p) of
        (Some e, q) \<Rightarrow> (Inl e, q)
      | (None, q) \<Rightarrow> finish rt q)"

subsection \<open>Query strings and what they stand for\<close>

text \<open>
  The vocabulary of the statements below. A character is \<open>plain\<close> when the loop of
  \<^verbatim>\<open>extract\<close> sends it to its last branch: it is none of the seven structural
  characters and not the backslash. The body of a group is made of plain characters and
  the two separators (\<open>group_char\<close>). Value text may also hold colons
  (\<open>text_char\<close>, whose flag says whether the text stands inside a group);
  \<open>escape_colons\<close> writes such a text the way a query string has to, with a backslash
  before every colon.
\<close>

definition plain :: "char \<Rightarrow> bool" where
  "plain c = (c \<noteq> CHR '':'' \<and> c \<noteq> CHR ''|'' \<and> c \<noteq> CHR '','' \<and> c \<noteq> CHR '']'' \<and> c \<noteq> CHR '')''
              \<and> c \<noteq> CHR ''['' \<and> c \<noteq> CHR ''('' \<and> c \<noteq> CHR 0x5C)"

definition text_char :: "bool \<Rightarrow> char \<Rightarrow> bool" where
  "text_char m c = (plain c \<or> c = CHR '':'' \<or> (m \<and> (c = CHR '','' \<or> c = CHR ''|'')))"

definition group_char :: "char \<Rightarrow> bool" where
  "group_char c = (plain c \<or> c = CHR '','' \<or> c = CHR ''|'')"

fun escape_colons :: "string \<Rightarrow> string" where
  "escape_colons [] = []"
| "escape_colons (c # cs) =
     (if c = CHR '':'' then [CHR 0x5C, CHR '':''] else [c]) @ escape_colons cs"

text \<open>The three header fields of a clause, each closed by its colon.\<close>

definition clause_header :: "DataType \<Rightarrow> string \<Rightarrow> Operator \<Rightarrow> string" where
  "clause_header ty f op = DataType_token ty @ '':'' @ f @ '':'' @ Operator_token op @ '':''"

text \<open>The delimiter \<^verbatim>\<open>extract\<close> records for a closing bracket.\<close>

definition group_delimiter :: "char \<Rightarrow> char" where
  "group_delimiter cl = (if cl = CHR '')'' then CHR ''|'' else CHR '','')"

text \<open>\<^verbatim>\<open>this.filter\<close> once the header of a clause has been read.\<close>

definition header_filter :: "DataType \<Rightarrow> string \<Rightarrow> Operator \<Rightarrow> bool \<Rightarrow> unit FilterQuery" where
  "header_filter ty f op m =
     \<lparr>fq_type = Some ty, fq_field = Some f, fq_operator = Some op, fq_multi = m,
      fq_delimiter = None, fq_value = ()\<rparr>"

text \<open>A filter object of a complete clause, with the joined text or a converted value.\<close>

definition descriptor ::
  "DataType \<Rightarrow> string \<Rightarrow> Operator \<Rightarrow> bool \<Rightarrow> char option \<Rightarrow> 'v \<Rightarrow> 'v FilterQuery" where
  "descriptor ty f op m d v =
     \<lparr>fq_type = Some ty, fq_field = Some f, fq_operator = Some op, fq_multi = m,
      fq_delimiter = d, fq_value = v\<rparr>"

text \<open>
  What \<^verbatim>\<open>extract\<close> returns when the last clause goes through \<^verbatim>\<open>transform\<close> with the
  result \<open>r\<close> and \<open>before\<close> has been pushed already.
\<close>

definition listed :: "'a list \<Rightarrow> error + 'a \<Rightarrow> error + 'a list" where
  "listed before r = (case r of Inl e \<Rightarrow> Inl e | Inr d \<Rightarrow> Inr (before @ [d]))"

text \<open>The instance between two clauses: as \<^verbatim>\<open>reset\<close> leaves it.\<close>

definition fresh :: "'n Parser \<Rightarrow> bool" where
  "fresh p = (filter' p = empty_filter \<and> stack p = [] \<and> \<not> escaped p)"

text \<open>The parsing function of the number and of the date branch of \<^verbatim>\<open>transform\<close>.\<close>

definition token_parser :: "'n runtime \<Rightarrow> DataType \<Rightarrow> string \<Rightarrow> 'n option" where
  "token_parser rt ty = (if ty = DT_date then Date_parse rt else toNumber rt)"

subsection \<open>A runtime for the examples\<close>

text \<open>
  The examples need the two runtime functions at a few concrete strings. This runtime
  reads a string of at most 15 decimal digits as the integer it writes (the empty string
  as 0), and a valid calendar date written \<^verbatim>\<open>YYYY-MM-DD\<close> as the milliseconds from
  1970-01-01 to its UTC midnight; on these strings JavaScript returns the same numbers.
  Every other string is \<open>None\<close> here. That is what JavaScript returns for the other
  tokens of the examples (\<^verbatim>\<open>a\<close>, \<^verbatim>\<open>b\<close>, \<^verbatim>\<open>c\<close>, \<^verbatim>\<open>x\<close>); no example uses the runtime on
  any further string, and no general theorem uses it at all.
\<close>

definition is_digit :: "char \<Rightarrow> bool" where
  "is_digit c = (48 \<le> (of_char c :: nat) \<and> (of_char c :: nat) \<le> 57)"

definition digits_value :: "string \<Rightarrow> int" where
  "digits_value s = foldl (\<lambda>acc c. 10 * acc + (int (of_char c) - 48)) 0 s"

definition sample_toNumber :: "string \<Rightarrow> int option" where
  "sample_toNumber s =
     (if list_all is_digit s \<and> length s \<le> 15 then Some (digits_value s) else None)"

definition days_from_civil :: "int \<Rightarrow> int \<Rightarrow> int \<Rightarrow> int" where
  "days_from_civil y m d =
     (let y' = (if m \<le> 2 then y - 1 else y);
          era = y' div 400;
          yoe = y' - era * 400;
          doy = (153 * (if m > 2 then m - 3 else m + 9) + 2) div 5 + d - 1;
          doe = yoe * 365 + yoe div 4 - yoe div 100 + doy
      in era * 146097 + doe - 719468)"

definition days_in_month :: "int \<Rightarrow> int \<Rightarrow> int" where
  "days_in_month y m =
     (if m = 2 then (if y mod 4 = 0 \<and> (y mod 400 = 0 \<or> y mod 100 \<noteq> 0) then 29 else 28)
      else if m = 4 \<or> m = 6 \<or> m = 9 \<or> m = 11 then 30 else 31)"

definition sample_Date_parse :: "string \<Rightarrow> int option" where
  "sample_Date_parse s =
     (if length s = 10 \<and> s ! 4 = CHR ''-'' \<and> s ! 7 = CHR ''-''
         \<and> list_all is_digit (take 4 s) \<and> list_all is_digit (take 2 (drop 5 s))
         \<and> list_all is_digit (drop 8 s)
      then (let y = digits_value (take 4 s); m = digits_value (take 2 (drop 5 s));
                d = digits_value (drop 8 s)
            in if 1 \<le> m \<and> m \<le> 12 \<and> 1 \<le> d \<and> d \<le> days_in_month y m
               then Some (days_from_civil y m d * 86400000) else None)
      else None)"

definition sample_runtime :: "int runtime" where
  "sample_runtime = \<lparr>toNumber = sample_toNumber, Date_parse = sample_Date_parse\<rparr>"

section \<open>Scanning\<close>

subsection \<open>Single characters\<close>

lemma scan_append:
  "scan rt (u @ v) p =
     (case scan rt u p of (Some e, q) \<Rightarrow> (Some e, q) | (None, q) \<Rightarrow> scan rt v q)"
  by (induction u arbitrary: p) (auto split: prod.splits option.splits)

lemma step_plain:
  "plain c \<Longrightarrow> step rt c p = (None, p\<lparr>stack := stack p @ [c], chr := [c]\<rparr>)"
  by (simp add: step_def plain_def Let_def)

lemma step_backslash:
  "step rt (CHR 0x5C) p = (None, p\<lparr>chr := [CHR 0x5C], escaped := True\<rparr>)"
  by (simp add: step_def Let_def)

lemma step_escaped_colon:
  "escaped p \<Longrightarrow>
   step rt (CHR '':'') p = (None, p\<lparr>stack := stack p @ '':'', chr := '':'', escaped := False\<rparr>)"
  by (simp add: step_def Let_def)

lemma step_escaped_structural:
  "escaped p \<Longrightarrow> c \<in> set '',|[]()'' \<Longrightarrow>
   step rt c p = (Some (InvalidEscapedCharacter c), p\<lparr>chr := [c]\<rparr>)"
  by (auto simp add: step_def Let_def)

lemma step_group_separator:
  "\<not> escaped p \<Longrightarrow> fq_multi (filter' p) \<Longrightarrow> c = CHR '','' \<or> c = CHR ''|'' \<Longrightarrow>
   step rt c p = (None, p\<lparr>stack := stack p @ [c], chr := [c]\<rparr>)"
  by (auto simp add: step_def Let_def)

lemma scan_escape_colons:
  "\<not> escaped p \<Longrightarrow> list_all (text_char (fq_multi (filter' p))) t \<Longrightarrow>
   scan rt (escape_colons t) p =
     (None, p\<lparr>stack := stack p @ t, chr := (if t = [] then chr p else [last t])\<rparr>)"
proof (induction t arbitrary: p)
  case Nil
  then show ?case by simp
next
  case (Cons c cs)
  let ?q = "p\<lparr>stack := stack p @ [c], chr := [c]\<rparr>"
  have tc: "text_char (fq_multi (filter' p)) c"
    and rest: "list_all (text_char (fq_multi (filter' p))) cs"
    using Cons.prems by simp_all
  have q: "\<not> escaped ?q" "list_all (text_char (fq_multi (filter' ?q))) cs"
    using Cons.prems(1) rest by simp_all
  have hd: "scan rt (if c = CHR '':'' then [CHR 0x5C, CHR '':''] else [c]) p = (None, ?q)"
  proof (cases "c = CHR '':''")
    case True
    then show ?thesis
      using Cons.prems(1) by (simp add: step_backslash step_escaped_colon)
  next
    case False
    then show ?thesis
      using tc Cons.prems(1)
      by (auto simp add: text_char_def step_plain step_group_separator)
  qed
  show ?case
    using Cons.IH [OF q] hd by (simp add: scan_append)
qed

lemma escape_colons_plain: "list_all plain t \<Longrightarrow> escape_colons t = t"
  by (induction t) (auto simp add: plain_def)

lemma getFilterType_token: "getFilterType (DataType_token ty) = Some ty"
  by (cases ty) (simp_all add: getFilterType_def DataType_values_def)

lemma getFilterOperator_token: "getFilterOperator (Operator_token op) = Some op"
  by (cases op) (simp_all add: getFilterOperator_def Operator_values_def)

lemma plain_DataType_token: "list_all plain (DataType_token ty)"
  by (cases ty) (simp_all add: plain_def)

lemma plain_Operator_token: "list_all plain (Operator_token op)"
  by (cases op) (simp_all add: plain_def)

lemma scan_plain:
  "list_all plain t \<Longrightarrow>
   scan rt t p = (None, p\<lparr>stack := stack p @ t, chr := (if t = [] then chr p else [last t])\<rparr>)"
proof (induction t arbitrary: p)
  case Nil
  then show ?case by simp
next
  case (Cons c cs)
  then show ?case by (simp add: step_plain)
qed

subsection \<open>The header of a clause\<close>

lemma fresh_start: "fresh (start options p)"
  by (simp add: fresh_def start_def reset_def)

lemma fresh_reset: "fresh (reset p)"
  by (simp add: fresh_def reset_def)

lemma step_colon_type:
  "\<not> escaped p \<Longrightarrow> filter' p = empty_filter \<Longrightarrow> getFilterType (stack p) = Some ty \<Longrightarrow>
   step rt (CHR '':'') p =
     (None, p\<lparr>filter' := empty_filter\<lparr>fq_type := Some ty\<rparr>, stack := [], chr := '':''\<rparr>)"
  by (simp add: step_def Let_def empty_filter_def)

lemma step_colon_field:
  "\<not> escaped p \<Longrightarrow> filter' p = empty_filter\<lparr>fq_type := Some ty\<rparr> \<Longrightarrow> isValidKey p (stack p) \<Longrightarrow>
   step rt (CHR '':'') p =
     (None, p\<lparr>filter' := empty_filter\<lparr>fq_type := Some ty, fq_field := Some (stack p)\<rparr>, stack := [], chr := '':''\<rparr>)"
  by (simp add: step_def Let_def empty_filter_def truthy_def isValidKey_def)

lemma step_colon_operator:
  "\<not> escaped p \<Longrightarrow> f \<noteq> [] \<Longrightarrow>
   filter' p = empty_filter\<lparr>fq_type := Some ty, fq_field := Some f\<rparr> \<Longrightarrow>
   getFilterOperator (stack p) = Some op \<Longrightarrow>
   step rt (CHR '':'') p = (None, p\<lparr>filter' := header_filter ty f op False, stack := [], chr := '':''\<rparr>)"
  by (simp add: step_def Let_def empty_filter_def truthy_def header_filter_def)

lemma scan_seq:
  "scan rt u p = (None, q) \<Longrightarrow> scan rt v q = r \<Longrightarrow> scan rt (u @ v) p = r"
  by (simp add: scan_append)

lemma scan_token_colon:
  assumes "list_all plain t" "stack p = []"
    and "step rt (CHR '':'') (p\<lparr>stack := t, chr := (if t = [] then chr p else [last t])\<rparr>) = (None, q)"
  shows "scan rt (t @ '':'') p = (None, q)"
  using assms by (simp add: scan_append scan_plain)

lemma scan_header:
  assumes "fresh p" "list_all plain f" "f \<noteq> []" "isValidKey p f"
  shows "scan rt (clause_header ty f op) p =
           (None, p\<lparr>filter' := header_filter ty f op False, stack := [], chr := '':''\<rparr>)"
proof -
  let ?p1 = "p\<lparr>filter' := empty_filter\<lparr>fq_type := Some ty\<rparr>, stack := [], chr := '':''\<rparr>"
  let ?p2 = "p\<lparr>filter' := empty_filter\<lparr>fq_type := Some ty, fq_field := Some f\<rparr>, stack := [], chr := '':''\<rparr>"
  let ?p3 = "p\<lparr>filter' := header_filter ty f op False, stack := [], chr := '':''\<rparr>"
  have p: "filter' p = empty_filter" "stack p = []" "\<not> escaped p"
    using assms(1) by (simp_all add: fresh_def)
  have s1: "scan rt (DataType_token ty @ '':'') p = (None, ?p1)"
    using p by (intro scan_token_colon)
      (simp_all add: plain_DataType_token step_colon_type getFilterType_token)
  have s2: "scan rt (f @ '':'') ?p1 = (None, ?p2)"
    using p assms(2-4) by (intro scan_token_colon)
      (simp_all add: step_colon_field isValidKey_def)
  have s3: "scan rt (Operator_token op @ '':'') ?p2 = (None, ?p3)"
    using p assms(3) by (intro scan_token_colon)
      (simp_all add: plain_Operator_token step_colon_operator [where f = f]
         getFilterOperator_token)
  have eq: "clause_header ty f op
          = (DataType_token ty @ '':'') @ (f @ '':'') @ (Operator_token op @ '':'')"
    by (simp add: clause_header_def)
  show ?thesis
    unfolding eq by (rule scan_seq [OF s1], rule scan_seq [OF s2], rule s3)
qed

subsection \<open>Values, groups and whole clauses\<close>

lemma scan_single: "scan rt [c] p = step rt c p"
  by (cases "step rt c p") (auto split: option.splits)

lemma step_open:
  "\<not> escaped p \<Longrightarrow> c = CHR ''['' \<or> c = CHR ''('' \<Longrightarrow>
   step rt c p = (None, p\<lparr>filter' := (filter' p)\<lparr>fq_multi := True\<rparr>, stack := [], chr := [c]\<rparr>)"
  by (erule disjE) (simp_all add: step_def Let_def)

lemma step_close:
  "\<not> escaped p \<Longrightarrow> c = CHR '']'' \<or> c = CHR '')'' \<Longrightarrow>
   step rt c p =
     and_reset (push_transformed rt
       ((with_value (filter' p) (stack p))\<lparr>fq_delimiter := Some (group_delimiter c)\<rparr>)
       (p\<lparr>chr := [c]\<rparr>))"
  by (erule disjE) (simp_all add: step_def Let_def group_delimiter_def)

lemma scan_scalar_clause:
  assumes "fresh q" "list_all plain f" "f \<noteq> []" "isValidKey q f"
    and "list_all (text_char False) v"
  shows "scan rt (clause_header ty f op @ escape_colons v) q =
           (None, q\<lparr>filter' := header_filter ty f op False, stack := v, chr := (if v = [] then '':'' else [last v])\<rparr>)"
proof -
  let ?h = "q\<lparr>filter' := header_filter ty f op False, stack := [], chr := '':''\<rparr>"
  have q: "\<not> escaped q" using assms(1) by (simp add: fresh_def)
  have h: "scan rt (clause_header ty f op) q = (None, ?h)"
    using assms(1-4) by (rule scan_header)
  have "scan rt (escape_colons v) ?h =
          (None, ?h\<lparr>stack := stack ?h @ v, chr := (if v = [] then chr ?h else [last v])\<rparr>)"
    using q assms(5) by (intro scan_escape_colons) (simp_all add: header_filter_def)
  then show ?thesis
    by (intro scan_seq [OF h]) simp
qed

lemma scan_group_body:
  assumes "fresh q" "list_all plain f" "f \<noteq> []" "isValidKey q f"
    and "list_all (text_char True) body"
    and "opn = CHR ''['' \<or> opn = CHR ''(''"
  shows "scan rt (clause_header ty f op @ [opn] @ escape_colons body) q =
           (None, q\<lparr>filter' := header_filter ty f op True, stack := body,
                    chr := (if body = [] then [opn] else [last body])\<rparr>)"
proof -
  let ?h = "q\<lparr>filter' := header_filter ty f op False, stack := [], chr := '':''\<rparr>"
  let ?g = "q\<lparr>filter' := header_filter ty f op True, stack := [], chr := [opn]\<rparr>"
  have q: "\<not> escaped q" using assms(1) by (simp add: fresh_def)
  have h: "scan rt (clause_header ty f op) q = (None, ?h)"
    using assms(1-4) by (rule scan_header)
  have g: "scan rt [opn] ?h = (None, ?g)"
    using q assms(6) by (simp add: step_open header_filter_def)
  have "scan rt (escape_colons body) ?g =
          (None, ?g\<lparr>stack := stack ?g @ body,
                   chr := (if body = [] then chr ?g else [last body])\<rparr>)"
    using q assms(5) by (intro scan_escape_colons) (simp_all add: header_filter_def)
  then have b: "scan rt (escape_colons body) ?g =
                  (None, q\<lparr>filter' := header_filter ty f op True, stack := body,
                           chr := (if body = [] then [opn] else [last body])\<rparr>)"
    by simp
  show ?thesis
    by (rule scan_seq [OF h], rule scan_seq [OF g], rule b)
qed

lemma scan_group_clause:
  assumes "fresh q" "list_all plain f" "f \<noteq> []" "isValidKey q f"
    and "list_all (text_char True) body"
    and "opn = CHR ''['' \<or> opn = CHR ''(''" "cl = CHR '']'' \<or> cl = CHR '')''"
  shows "scan rt (clause_header ty f op @ [opn] @ escape_colons body @ [cl]) q =
           and_reset (push_transformed rt
             (descriptor ty f op True (Some (group_delimiter cl)) body)
             (q\<lparr>filter' := header_filter ty f op True, stack := body, chr := [cl]\<rparr>))"
proof -
  let ?b = "q\<lparr>filter' := header_filter ty f op True, stack := body,
               chr := (if body = [] then [opn] else [last body])\<rparr>"
  have q: "\<not> escaped q" using assms(1) by (simp add: fresh_def)
  have b: "scan rt ((clause_header ty f op @ [opn] @ escape_colons body)) q = (None, ?b)"
    using assms(1-6) by (rule scan_group_body)
  have c: "scan rt [cl] ?b =
             and_reset (push_transformed rt
               (descriptor ty f op True (Some (group_delimiter cl)) body)
               (q\<lparr>filter' := header_filter ty f op True, stack := body, chr := [cl]\<rparr>))"
    using q assms(7)
    by (simp only: scan_single)
       (simp add: step_close with_value_def header_filter_def descriptor_def)
  have "scan rt ((clause_header ty f op @ [opn] @ escape_colons body) @ [cl]) q =
          and_reset (push_transformed rt
            (descriptor ty f op True (Some (group_delimiter cl)) body)
            (q\<lparr>filter' := header_filter ty f op True, stack := body, chr := [cl]\<rparr>))"
    by (rule scan_seq [OF b], rule c)
  then show ?thesis by simp
qed

lemma buffer_reset: "buffer (reset p) = buffer p"
  by (simp add: reset_def)

lemma finish_fresh: "fresh p \<Longrightarrow> finish rt p = (Inr (buffer p), p)"
  by (simp add: finish_def fresh_def)

lemma extract_scalar_clause:
  assumes "scan rt pre (start options p) = (None, q)" "fresh q"
    and "list_all plain f" "f \<noteq> []" "isValidKey q f"
    and "list_all (text_char False) v" "v \<noteq> []"
  shows "fst (extract' rt (pre @ clause_header ty f op @ escape_colons v) options p) =
           listed (buffer q) (transform rt (descriptor ty f op False None v))"
proof -
  let ?e = "q\<lparr>filter' := header_filter ty f op False, stack := v, chr := [last v]\<rparr>"
  have "scan rt (clause_header ty f op @ escape_colons v) q = (None, ?e)"
    using scan_scalar_clause [OF assms(2-6)] assms(7) by simp
  then have "scan rt (pre @ clause_header ty f op @ escape_colons v) (start options p) = (None, ?e)"
    by (rule scan_seq [OF assms(1)])
  then show ?thesis
    using assms(7)
    by (simp add: extract'_def finish_def header_filter_def truthy_def push_transformed_def
          with_value_def descriptor_def listed_def split: sum.splits)
qed

lemma extract_group_clause:
  assumes "scan rt pre (start options p) = (None, q)" "fresh q"
    and "list_all plain f" "f \<noteq> []" "isValidKey q f"
    and "list_all (text_char True) body"
    and "opn = CHR ''['' \<or> opn = CHR ''(''" "cl = CHR '']'' \<or> cl = CHR '')''"
  shows "fst (extract' rt (pre @ clause_header ty f op @ [opn] @ escape_colons body @ [cl])
                options p) =
           listed (buffer q)
             (transform rt (descriptor ty f op True (Some (group_delimiter cl)) body))"
proof -
  let ?r = "descriptor ty f op True (Some (group_delimiter cl)) body"
  let ?b = "q\<lparr>filter' := header_filter ty f op True, stack := body, chr := [cl]\<rparr>"
  have "scan rt (clause_header ty f op @ [opn] @ escape_colons body @ [cl]) q =
          and_reset (push_transformed rt ?r ?b)"
    using assms(2-8) by (rule scan_group_clause)
  then have s: "scan rt (pre @ clause_header ty f op @ [opn] @ escape_colons body @ [cl])
                  (start options p) = and_reset (push_transformed rt ?r ?b)"
    by (rule scan_seq [OF assms(1)])
  show ?thesis
  proof (cases "transform rt ?r")
    case (Inl e)
    then show ?thesis
      using s by (simp add: extract'_def and_reset_def push_transformed_def listed_def)
  next
    case (Inr d)
    then have "scan rt (pre @ clause_header ty f op @ [opn] @ escape_colons body @ [cl])
                 (start options p) = (None, reset (?b\<lparr>buffer := buffer q @ [d]\<rparr>))"
      using s by (simp add: and_reset_def push_transformed_def)
    then show ?thesis
      using Inr by (simp add: extract'_def finish_fresh fresh_reset listed_def buffer_reset)
  qed
qed

subsection \<open>Cases of \<^verbatim>\<open>transform\<close>\<close>

lemma those_map_Some: "those (map Some xs) = Some xs"
  by (induction xs) simp_all

lemma those_None: "None \<in> set xs \<Longrightarrow> those xs = None"
  by (induction xs) (auto split: option.splits)

lemma transform_numeric_multi:
  assumes "ty = DT_number \<or> ty = DT_date"
    and "map (token_parser rt ty) (split (Some d) v) = map Some ns"
  shows "transform rt (descriptor ty f op True (Some d) v) =
           (if isRangeTypeOperator (Some op) \<and> length ns \<noteq> 2
            then Inl (WrongNumberOfArguments (length ns))
            else if \<not> isRangeTypeOperator (Some op) \<and> \<not> hasOneOfRangeTypeOperator (Some op)
            then Inl (InvalidOperatorType (Some op) (Some f))
            else Inr (descriptor ty f op True (Some d) (VNumbers ns)))"
proof -
  have t: "those (map (token_parser rt ty) (split (Some d) v)) = Some ns"
    by (simp only: assms(2) those_map_Some)
  from assms(1) show ?thesis
  proof
    assume "ty = DT_number"
    then show ?thesis
      using t by (simp add: transform_def descriptor_def token_parser_def with_value_def)
  next
    assume "ty = DT_date"
    then show ?thesis
      using t by (simp add: transform_def descriptor_def token_parser_def with_value_def)
  qed
qed

lemma transform_numeric_NaN:
  assumes "ty = DT_number \<or> ty = DT_date"
    and "None \<in> set (map (token_parser rt ty) (split d v))"
  shows "transform rt (descriptor ty f op m d v) = Inl InvalidValueTypes"
proof -
  have t: "those (map (token_parser rt ty) (split d v)) = None"
    using assms(2) by (rule those_None)
  from assms(1) show ?thesis
  proof
    assume "ty = DT_number"
    then show ?thesis
      using t by (simp add: transform_def descriptor_def token_parser_def)
  next
    assume "ty = DT_date"
    then show ?thesis
      using t by (simp add: transform_def descriptor_def token_parser_def)
  qed
qed

lemma transform_number_single:
  assumes "toNumber rt v = Some n"
  shows "transform rt (descriptor DT_number f op False None v) =
           Inr (descriptor DT_number f op False None (VNumber n))"
  using assms by (simp add: transform_def descriptor_def with_value_def split_def)

lemma transform_string:
  assumes "forStringTypeOperator (Some op)"
  shows "transform rt (descriptor DT_string f op m d v) =
           Inr (descriptor DT_string f op m d (if m then VStrings (split d v) else VString v))"
  using assms by (simp add: transform_def descriptor_def with_value_def)

subsection \<open>Throws, character classes and the start of a call\<close>

lemma scan_throws:
  "scan rt u p = (Some e, q) \<Longrightarrow> scan rt (u @ v) p = (Some e, q)"
  by (simp add: scan_append)

lemma extract_throws:
  "scan rt str (start options p) = (Some e, q) \<Longrightarrow> fst (extract' rt str options p) = Inl e"
  by (simp add: extract'_def)

lemma scan_prefix_state:
  "fst (scan rt u p) = None \<Longrightarrow> scan rt u p = (None, snd (scan rt u p))"
  by (cases "scan rt u p") simp

lemma transform_date_single:
  assumes "Date_parse rt v = Some t"
  shows "transform rt (descriptor DT_date f op False None v) =
           Inr (descriptor DT_date f op False None (VString v))"
  using assms by (simp add: transform_def descriptor_def with_value_def split_def)

lemma transform_void:
  "transform rt (descriptor DT_void f op m d v) =
     (if op \<noteq> Op_is \<and> op \<noteq> Op_isNot then Inl (InvalidValueTypeVoid v)
      else if v = ''null'' then Inr (descriptor DT_void f op m d VNull)
      else if v = ''undefined'' then Inl (JSONSyntaxError ''undefined'')
      else Inl (UnexpectedValueForVoid v))"
  by (simp add: transform_def descriptor_def with_value_def JSON_parse_def)

lemma plain_text_char: "list_all plain v \<Longrightarrow> list_all (text_char m) v"
  by (auto simp add: list_all_iff text_char_def)

lemma group_char_text: "list_all group_char body \<Longrightarrow> list_all (text_char True) body"
  by (auto simp add: list_all_iff text_char_def group_char_def)

lemma escape_colons_group: "list_all group_char body \<Longrightarrow> escape_colons body = body"
  by (induction body) (auto simp add: plain_def group_char_def)

lemma start_independent: "start options p = start options p'"
  by (cases p, cases p') (simp add: start_def reset_def)

section \<open>The properties C1 to C10\<close>

text \<open>
  C1, as the code has it: of the structural characters only the colon can be escaped.
  Whatever has been read before, a backslash directly followed by a colon appends the
  colon to the stack and clears the flag; a backslash directly followed by \<^verbatim>\<open>,\<close>, \<^verbatim>\<open>|\<close>, \<^verbatim>\<open>[\<close>, \<^verbatim>\<open>]\<close>,
  \<^verbatim>\<open>(\<close> or \<^verbatim>\<open>)\<close> makes \<^verbatim>\<open>extract\<close> throw ``Invalid escaped character'', inside a
  group as well as outside, whatever follows.
\<close>

theorem C1_only_colon_can_be_escaped:
  assumes "scan rt pre (start options p) = (None, q)"
  shows "scan rt (pre @ [CHR 0x5C, CHR '':'']) (start options p)
           = (None, q\<lparr>stack := stack q @ '':'', chr := '':'', escaped := False\<rparr>)
         \<and> (c \<in> set '',|[]()'' \<longrightarrow>
              fst (extract' rt (pre @ [CHR 0x5C, c] @ rest) options p)
                = Inl (InvalidEscapedCharacter c))"
proof -
  let ?e = "q\<lparr>chr := [CHR 0x5C], escaped := True\<rparr>"
  have e: "scan rt [CHR 0x5C] q = (None, ?e)"
    by (simp add: step_backslash)
  have pe: "scan rt (pre @ [CHR 0x5C]) (start options p) = (None, ?e)"
    by (rule scan_seq [OF assms], rule e)
  have "scan rt '':'' ?e = (None, q\<lparr>stack := stack q @ '':'', chr := '':'', escaped := False\<rparr>)"
    by (simp only: scan_single) (simp add: step_escaped_colon)
  then have "scan rt ((pre @ [CHR 0x5C]) @ '':'') (start options p)
               = (None, q\<lparr>stack := stack q @ '':'', chr := '':'', escaped := False\<rparr>)"
    by (rule scan_seq [OF pe])
  then have first: "scan rt (pre @ [CHR 0x5C, CHR '':'']) (start options p)
               = (None, q\<lparr>stack := stack q @ '':'', chr := '':'', escaped := False\<rparr>)"
    by simp
  have second: "fst (extract' rt (pre @ [CHR 0x5C, c] @ rest) options p)
                  = Inl (InvalidEscapedCharacter c)" if c: "c \<in> set '',|[]()''"
  proof -
    have "scan rt [c] ?e = (Some (InvalidEscapedCharacter c), ?e\<lparr>chr := [c]\<rparr>)"
      using c by (simp only: scan_single) (simp add: step_escaped_structural)
    then have "scan rt ((pre @ [CHR 0x5C]) @ [c]) (start options p)
                 = (Some (InvalidEscapedCharacter c), ?e\<lparr>chr := [c]\<rparr>)"
      by (rule scan_seq [OF pe])
    then have "scan rt (((pre @ [CHR 0x5C]) @ [c]) @ rest) (start options p)
                 = (Some (InvalidEscapedCharacter c), ?e\<lparr>chr := [c]\<rparr>)"
      by (rule scan_throws)
    then have "fst (extract' rt (((pre @ [CHR 0x5C]) @ [c]) @ rest) options p)
                 = Inl (InvalidEscapedCharacter c)"
      by (rule extract_throws)
    then show ?thesis by simp
  qed
  show ?thesis
    using first second by blast
qed

text \<open>Both halves at concrete inputs, inside a group.\<close>

theorem C1_escape_examples:
  "stack (snd (scan sample_runtime (''s:f:=:[a'' @ [CHR 0x5C, CHR '':''])
                 (start None new_Parser))) = ''a:''
   \<and> fst (extract' sample_runtime (''s:f:=:[a'' @ [CHR 0x5C, CHR '']''] @ ''b]'') None new_Parser)
     = Inl (InvalidEscapedCharacter (CHR '']''))"
proof -
  let ?q = "snd (scan sample_runtime ''s:f:=:[a'' (start None new_Parser)) :: int Parser"
  have "fst (scan sample_runtime ''s:f:=:[a'' (start None new_Parser :: int Parser)) = None"
    by code_simp
  then have 1: "scan sample_runtime ''s:f:=:[a'' (start None new_Parser) = (None, ?q)"
    by (rule scan_prefix_state)
  have c: "CHR '']'' \<in> set '',|[]()''" by simp
  have st: "stack ?q = ''a''" by code_simp
  show ?thesis
    using C1_only_colon_can_be_escaped [OF 1, where c = "CHR '']''" and rest = "''b]''"] c st
    by simp
qed

text \<open>
  C1 as stated, with every escaped structural character accepted and appended, fails on
  \<^verbatim>\<open>s:condition:=:[new,like_new\<close>, a backslash, \<^verbatim>\<open>,acceptable]\<close>, one of the sample
  queries of \<^verbatim>\<open>src/app.js\<close>: the escaped comma is not appended, the call throws.
\<close>

theorem C1_escaped_comma_counterexample:
  "fst (extract' sample_runtime
          (''s:condition:=:[new,like_new'' @ [CHR 0x5C] @ '',acceptable]'') None new_Parser)
     = Inl (InvalidEscapedCharacter (CHR '',''))"
  by code_simp

text \<open>
  C2. Take a number or date clause at the end of a query whose earlier part \<open>pre\<close> has
  been read without a throw and has left the instance between two clauses. If the value
  is a group, the descriptor records the delimiter of the closing bracket (a comma for
  \<^verbatim>\<open>]\<close>, a pipe for \<^verbatim>\<open>)\<close>), and its value is the list of the numbers that the tokens
  between occurrences of that very delimiter parse to, in order; the other separator is
  part of a token. A number value outside a group is parsed whole, as one token.
\<close>

theorem C2_delimiter_from_closing_bracket:
  assumes "scan rt pre (start options p) = (None, q)" "fresh q"
    and "list_all plain f" "f \<noteq> []" "isValidKey q f"
    and "opn = CHR ''['' \<or> opn = CHR ''(''" "cl = CHR '']'' \<or> cl = CHR '')''"
    and "ty = DT_number \<or> ty = DT_date"
  shows
    "(list_all group_char body \<longrightarrow>
      map (token_parser rt ty) (split (Some (group_delimiter cl)) body) = map Some ns \<longrightarrow>
      (if isRangeTypeOperator (Some op) then length ns = 2
       else hasOneOfRangeTypeOperator (Some op)) \<longrightarrow>
      fst (extract' rt (pre @ clause_header ty f op @ [opn] @ body @ [cl]) options p)
        = Inr (buffer q @ [descriptor ty f op True (Some (group_delimiter cl)) (VNumbers ns)]))
     \<and> (list_all plain v \<longrightarrow> v \<noteq> [] \<longrightarrow> toNumber rt v = Some n \<longrightarrow>
      fst (extract' rt (pre @ clause_header DT_number f op @ v) options p)
        = Inr (buffer q @ [descriptor DT_number f op False None (VNumber n)]))
     \<and> group_delimiter (CHR '']'') = CHR '','' \<and> group_delimiter (CHR '')'') = CHR ''|''"
proof (intro conjI impI)
  assume body: "list_all group_char body"
    and toks: "map (token_parser rt ty) (split (Some (group_delimiter cl)) body) = map Some ns"
    and legal: "if isRangeTypeOperator (Some op) then length ns = 2
                else hasOneOfRangeTypeOperator (Some op)"
  have plain_body: "list_all (text_char True) body"
    using body by (auto simp add: list_all_iff text_char_def group_char_def)
  have no_colon: "escape_colons body = body"
    using body by (induction body) (auto simp add: plain_def group_char_def)
  have "fst (extract' rt (pre @ clause_header ty f op @ [opn] @ escape_colons body @ [cl])
               options p) =
          listed (buffer q)
            (transform rt (descriptor ty f op True (Some (group_delimiter cl)) body))"
    using assms(1-5) plain_body assms(6,7) by (rule extract_group_clause)
  moreover have "transform rt (descriptor ty f op True (Some (group_delimiter cl)) body) =
                   Inr (descriptor ty f op True (Some (group_delimiter cl)) (VNumbers ns))"
    using legal by (simp add: transform_numeric_multi [OF assms(8) toks] split: if_splits)
  ultimately show "fst (extract' rt (pre @ clause_header ty f op @ [opn] @ body @ [cl]) options p)
        = Inr (buffer q @ [descriptor ty f op True (Some (group_delimiter cl)) (VNumbers ns)])"
    by (simp add: no_colon listed_def)
next
  assume v: "list_all plain v" "v \<noteq> []" and n: "toNumber rt v = Some n"
  have tv: "list_all (text_char False) v"
    using v(1) by (simp add: list_all_iff text_char_def)
  have "fst (extract' rt (pre @ clause_header DT_number f op @ escape_colons v) options p) =
          listed (buffer q) (transform rt (descriptor DT_number f op False None v))"
    using assms(1-5) tv v(2) by (rule extract_scalar_clause)
  then show "fst (extract' rt (pre @ clause_header DT_number f op @ v) options p)
        = Inr (buffer q @ [descriptor DT_number f op False None (VNumber n)])"
    by (simp add: escape_colons_plain [OF v(1)] transform_number_single [OF n] listed_def)
qed (simp_all add: group_delimiter_def)

text \<open>The example of the claim, \<^verbatim>\<open>n:stage:>=:(1|2|3)\<close>, and a single value.\<close>

theorem C2_stage_example:
  "fst (extract' sample_runtime ''n:stage:>=:(1|2|3)'' None new_Parser) =
     Inr [descriptor DT_number ''stage'' Op_gte True (Some CHR ''|'') (VNumbers [1, 2, 3])]
   \<and> fst (extract' sample_runtime ''n:stage:>=:7'' None new_Parser) =
     Inr [descriptor DT_number ''stage'' Op_gte False None (VNumber 7)]"
proof -
  let ?q = "start None new_Parser :: int Parser"
  have 1: "scan sample_runtime [] ?q = (None, ?q)" by simp
  have 2: "fresh ?q" by (rule fresh_start)
  have 3: "list_all plain ''stage''" by (simp add: plain_def)
  have 4: "''stage'' \<noteq> []" by simp
  have 5: "isValidKey ?q ''stage''" by code_simp
  have 6: "CHR ''('' = CHR ''['' \<or> CHR ''('' = CHR ''(''" by simp
  have 7: "CHR '')'' = CHR '']'' \<or> CHR '')'' = CHR '')''" by simp
  have 8: "DT_number = DT_number \<or> DT_number = DT_date" by simp
  have a: "list_all group_char ''1|2|3''" by (simp add: group_char_def plain_def)
  have b: "map (token_parser sample_runtime DT_number)
             (split (Some (group_delimiter CHR '')'')) ''1|2|3'') = map Some [1, 2, 3]"
    by code_simp
  have c: "if isRangeTypeOperator (Some Op_gte) then length [1, 2, 3 :: int] = 2
           else hasOneOfRangeTypeOperator (Some Op_gte)"
    by (simp add: isRangeTypeOperator_def hasOneOfRangeTypeOperator_def)
  have d: "list_all plain ''7''" "''7'' \<noteq> []" by (simp_all add: plain_def)
  have e: "toNumber sample_runtime ''7'' = Some 7" by code_simp
  have buf: "buffer ?q = []" by (simp add: start_def reset_def)
  show ?thesis
    using C2_delimiter_from_closing_bracket [OF 1 2 3 4 5 6 7 8,
        where body = "''1|2|3''" and ns = "[1, 2, 3]" and op = Op_gte and v = "''7''" and n = 7]
      a b c d e buf
    by (simp add: clause_header_def group_delimiter_def)
qed

text \<open>
  C3. What the code does with a date clause outside a group: when the value text parses
  as a date, the descriptor still carries the text itself, a string, and not the instant
  \<open>t\<close> that \<^verbatim>\<open>Date.parse\<close> has returned, whatever the operator. (The branch returns
  \<^verbatim>\<open>filter\<close>; the number branch next to it returns \<^verbatim>\<open>{ ...filter, value: nums.pop() }\<close>.)
\<close>

theorem C3_single_date_keeps_raw_text:
  assumes "scan rt pre (start options p) = (None, q)" "fresh q"
    and "list_all plain f" "f \<noteq> []" "isValidKey q f"
    and "list_all plain v" "v \<noteq> []"
    and "Date_parse rt v = Some t"
  shows "fst (extract' rt (pre @ clause_header DT_date f op @ v) options p)
           = Inr (buffer q @ [descriptor DT_date f op False None (VString v)])"
proof -
  have "fst (extract' rt (pre @ clause_header DT_date f op @ escape_colons v) options p) =
          listed (buffer q) (transform rt (descriptor DT_date f op False None v))"
    using assms(1-5) plain_text_char [OF assms(6)] assms(7) by (rule extract_scalar_clause)
  then show ?thesis
    by (simp add: escape_colons_plain [OF assms(6)] transform_date_single [OF assms(8)]
          listed_def)
qed

text \<open>At \<^verbatim>\<open>d:posted:=:2024-04-01\<close>, a text that does parse.\<close>

theorem C3_posted_example:
  "fst (extract' sample_runtime ''d:posted:=:2024-04-01'' None new_Parser)
     = Inr [descriptor DT_date ''posted'' Op_eq False None (VString ''2024-04-01'')]
   \<and> Date_parse sample_runtime ''2024-04-01'' = Some 1711929600000"
proof -
  let ?q = "start None new_Parser :: int Parser"
  have 1: "scan sample_runtime [] ?q = (None, ?q)" by simp
  have 2: "fresh ?q" by (rule fresh_start)
  have 3: "list_all plain ''posted''" "''posted'' \<noteq> []" by (simp_all add: plain_def)
  have 4: "isValidKey ?q ''posted''" by code_simp
  have 5: "list_all plain ''2024-04-01''" "''2024-04-01'' \<noteq> []" by (simp_all add: plain_def)
  have 6: "Date_parse sample_runtime ''2024-04-01'' = Some 1711929600000" by code_simp
  have buf: "buffer ?q = []" by (simp add: start_def reset_def)
  show ?thesis
    using C3_single_date_keeps_raw_text [OF 1 2 3 4 5 6, where op = Op_eq] 6 buf
    by (simp add: clause_header_def)
qed

text \<open>
  C4. What the code does with a void clause: an operator other than \<^verbatim>\<open>!!\<close> and \<^verbatim>\<open>!\<close>
  throws, and so does a literal other than \<^verbatim>\<open>null\<close> and \<^verbatim>\<open>undefined\<close>; \<^verbatim>\<open>null\<close>
  gives the null value; \<^verbatim>\<open>undefined\<close> passes both checks and then fails in
  \<^verbatim>\<open>JSON.parse\<close>, so it is never turned into the null value.
\<close>

theorem C4_void_literals:
  assumes "scan rt pre (start options p) = (None, q)" "fresh q"
    and "list_all plain f" "f \<noteq> []" "isValidKey q f"
    and "list_all plain v" "v \<noteq> []"
  shows "fst (extract' rt (pre @ clause_header DT_void f op @ v) options p) =
           (if op \<noteq> Op_is \<and> op \<noteq> Op_isNot then Inl (InvalidValueTypeVoid v)
            else if v = ''null''
            then Inr (buffer q @ [descriptor DT_void f op False None VNull])
            else if v = ''undefined'' then Inl (JSONSyntaxError ''undefined'')
            else Inl (UnexpectedValueForVoid v))"
proof -
  have "fst (extract' rt (pre @ clause_header DT_void f op @ escape_colons v) options p) =
          listed (buffer q) (transform rt (descriptor DT_void f op False None v))"
    using assms(1-5) plain_text_char [OF assms(6)] assms(7) by (rule extract_scalar_clause)
  then show ?thesis
    by (simp add: escape_colons_plain [OF assms(6)] transform_void listed_def)
qed

text \<open>The two literals with the operator \<^verbatim>\<open>!\<close>.\<close>

theorem C4_userId_example:
  "fst (extract' sample_runtime ''v:userId:!:undefined'' None new_Parser)
     = Inl (JSONSyntaxError ''undefined'')
   \<and> fst (extract' sample_runtime ''v:userId:!:null'' None new_Parser)
     = Inr [descriptor DT_void ''userId'' Op_isNot False None VNull]"
proof -
  let ?q = "start None new_Parser :: int Parser"
  have 1: "scan sample_runtime [] ?q = (None, ?q)" by simp
  have 2: "fresh ?q" by (rule fresh_start)
  have 3: "list_all plain ''userId''" "''userId'' \<noteq> []" by (simp_all add: plain_def)
  have 4: "isValidKey ?q ''userId''" by code_simp
  have 5: "list_all plain ''undefined''" "''undefined'' \<noteq> []" by (simp_all add: plain_def)
  have 6: "list_all plain ''null''" "''null'' \<noteq> []" by (simp_all add: plain_def)
  have buf: "buffer ?q = []" by (simp add: start_def reset_def)
  show ?thesis
    using C4_void_literals [OF 1 2 3 4 5, where op = Op_isNot]
      C4_void_literals [OF 1 2 3 4 6, where op = Op_isNot] buf
    by (simp add: clause_header_def)
qed

text \<open>
  C5. What the code does when the input ends inside a group that a complete header
  precedes: it throws ``unbalanced parenthesis or brackets'' only if some text follows the
  opening bracket. With nothing after the bracket the stack is empty, the check is
  never reached, and \<^verbatim>\<open>extract\<close> returns the descriptors of the earlier clauses as if the
  last clause were not there.
\<close>

theorem C5_unclosed_group:
  assumes "scan rt pre (start options p) = (None, q)" "fresh q"
    and "list_all plain f" "f \<noteq> []" "isValidKey q f"
    and "opn = CHR ''['' \<or> opn = CHR ''(''"
    and "list_all (text_char True) body"
  shows "fst (extract' rt (pre @ clause_header ty f op @ [opn] @ escape_colons body) options p)
           = (if body = [] then Inr (buffer q) else Inl MalformedUnbalanced)"
proof -
  let ?b = "q\<lparr>filter' := header_filter ty f op True, stack := body,
               chr := (if body = [] then [opn] else [last body])\<rparr>"
  have "scan rt (clause_header ty f op @ [opn] @ escape_colons body) q = (None, ?b)"
    using assms(2-5,7,6) by (rule scan_group_body)
  then have "scan rt (pre @ clause_header ty f op @ [opn] @ escape_colons body)
               (start options p) = (None, ?b)"
    by (rule scan_seq [OF assms(1)])
  then show ?thesis
    by (simp add: extract'_def finish_def header_filter_def truthy_def)
qed

text \<open>An opening bracket at the very end, and the unclosed query of \<^verbatim>\<open>src/app.js\<close>.\<close>

theorem C5_unclosed_examples:
  "fst (extract' sample_runtime ''s:f:=:['' None new_Parser) = Inr []
   \<and> fst (extract' sample_runtime ''s:forCampusId:=:(66395abfa6c8f456ce0f1877'' None new_Parser)
     = Inl MalformedUnbalanced"
proof -
  let ?q = "start None new_Parser :: int Parser"
  have 1: "scan sample_runtime [] ?q = (None, ?q)" by simp
  have 2: "fresh ?q" by (rule fresh_start)
  have 3: "list_all plain ''f''" "''f'' \<noteq> []" by (simp_all add: plain_def)
  have 4: "isValidKey ?q ''f''" by code_simp
  have 5: "list_all plain ''forCampusId''" "''forCampusId'' \<noteq> []" by (simp_all add: plain_def)
  have 6: "isValidKey ?q ''forCampusId''" by code_simp
  have o1: "CHR ''['' = CHR ''['' \<or> CHR ''['' = CHR ''(''" by simp
  have o2: "CHR ''('' = CHR ''['' \<or> CHR ''('' = CHR ''(''" by simp
  have b1: "list_all (text_char True) []" by simp
  have b2: "list_all (text_char True) ''66395abfa6c8f456ce0f1877''"
    by (simp add: text_char_def plain_def)
  have buf: "buffer ?q = []" by (simp add: start_def reset_def)
  show ?thesis
    using C5_unclosed_group [OF 1 2 3 4 o1 b1, where ty = DT_string and op = Op_eq]
      C5_unclosed_group [OF 1 2 5 6 o2 b2, where ty = DT_string and op = Op_eq] buf
    by (simp add: clause_header_def)
qed

text \<open>
  C6. What the code does after a backslash: the branch for an ordinary character pushes
  it and leaves \<^verbatim>\<open>escaped\<close> as it is, so the flag outlives any run \<open>w\<close> of plain
  characters. The next colon, however far, is appended as a literal and only then is
  the flag cleared; the next separator or bracket makes the call throw.
\<close>

theorem C6_escape_outlives_plain_text:
  assumes "scan rt pre (start options p) = (None, q)"
    and "list_all plain w"
  shows "scan rt (pre @ [CHR 0x5C] @ w @ '':'') (start options p)
           = (None, q\<lparr>stack := stack q @ w @ '':'', chr := '':'', escaped := False\<rparr>)
         \<and> (c \<in> set '',|[]()'' \<longrightarrow>
              fst (extract' rt (pre @ [CHR 0x5C] @ w @ [c] @ rest) options p)
                = Inl (InvalidEscapedCharacter c))"
proof -
  let ?e = "q\<lparr>chr := [CHR 0x5C], escaped := True\<rparr>"
  let ?w = "q\<lparr>stack := stack q @ w, chr := (if w = [] then [CHR 0x5C] else [last w]),
               escaped := True\<rparr>"
  have e: "scan rt [CHR 0x5C] q = (None, ?e)"
    by (simp add: step_backslash)
  have w: "scan rt w ?e = (None, ?w)"
    using scan_plain [OF assms(2), of rt ?e] by simp
  have pw: "scan rt (pre @ [CHR 0x5C] @ w) (start options p) = (None, ?w)"
    by (rule scan_seq [OF assms(1)], rule scan_seq [OF e], rule w)
  have colon: "scan rt '':'' ?w =
                 (None, q\<lparr>stack := stack q @ w @ '':'', chr := '':'', escaped := False\<rparr>)"
    by (simp only: scan_single) (simp add: step_escaped_colon)
  have "scan rt ((pre @ [CHR 0x5C] @ w) @ '':'') (start options p)
          = (None, q\<lparr>stack := stack q @ w @ '':'', chr := '':'', escaped := False\<rparr>)"
    by (rule scan_seq [OF pw], rule colon)
  then have first: "scan rt (pre @ [CHR 0x5C] @ w @ '':'') (start options p)
          = (None, q\<lparr>stack := stack q @ w @ '':'', chr := '':'', escaped := False\<rparr>)"
    by simp
  have second: "fst (extract' rt (pre @ [CHR 0x5C] @ w @ [c] @ rest) options p)
                  = Inl (InvalidEscapedCharacter c)" if c: "c \<in> set '',|[]()''"
  proof -
    have "scan rt [c] ?w = (Some (InvalidEscapedCharacter c), ?w\<lparr>chr := [c]\<rparr>)"
      using c by (simp only: scan_single) (simp add: step_escaped_structural)
    then have "scan rt ((pre @ [CHR 0x5C] @ w) @ [c]) (start options p)
                 = (Some (InvalidEscapedCharacter c), ?w\<lparr>chr := [c]\<rparr>)"
      by (rule scan_seq [OF pw])
    then have "scan rt (((pre @ [CHR 0x5C] @ w) @ [c]) @ rest) (start options p)
                 = (Some (InvalidEscapedCharacter c), ?w\<lparr>chr := [c]\<rparr>)"
      by (rule scan_throws)
    then have "fst (extract' rt (((pre @ [CHR 0x5C] @ w) @ [c]) @ rest) options p)
                 = Inl (InvalidEscapedCharacter c)"
      by (rule extract_throws)
    then show ?thesis by simp
  qed
  show ?thesis
    using first second by blast
qed

text \<open>
  Two characters after the backslash that follows \<^verbatim>\<open>s:f:=:\<close>: continued with
  \<^verbatim>\<open>ab:c\<close>, the colon ends up in the value; continued with \<^verbatim>\<open>ab,s:g:=:c\<close>, the
  comma does not separate two clauses, the call throws.
\<close>

theorem C6_escape_examples:
  "stack (snd (scan sample_runtime (''s:f:=:'' @ [CHR 0x5C] @ ''ab'' @ '':'')
                 (start None new_Parser))) = ''ab:''
   \<and> fst (extract' sample_runtime (''s:f:=:'' @ [CHR 0x5C] @ ''ab:c'') None new_Parser)
     = Inr [descriptor DT_string ''f'' Op_eq False None (VString ''ab:c'')]
   \<and> fst (extract' sample_runtime (''s:f:=:'' @ [CHR 0x5C] @ ''ab,s:g:=:c'') None new_Parser)
     = Inl (InvalidEscapedCharacter (CHR '',''))"
proof -
  let ?q = "snd (scan sample_runtime ''s:f:=:'' (start None new_Parser)) :: int Parser"
  have "fst (scan sample_runtime ''s:f:=:'' (start None new_Parser :: int Parser)) = None"
    by code_simp
  then have 1: "scan sample_runtime ''s:f:=:'' (start None new_Parser) = (None, ?q)"
    by (rule scan_prefix_state)
  have 2: "list_all plain ''ab''" by (simp add: plain_def)
  have c: "CHR '','' \<in> set '',|[]()''" by simp
  have st: "stack ?q = []" by code_simp
  note both = C6_escape_outlives_plain_text [OF 1 2,
      where c = "CHR '',''" and rest = "''s:g:=:c''"]
  have a: "stack (snd (scan sample_runtime (''s:f:=:'' @ [CHR 0x5C] @ ''ab'' @ '':'')
                         (start None new_Parser))) = ''ab:''"
    using both [THEN conjunct1] st by simp
  have b: "fst (extract' sample_runtime
                   (''s:f:=:'' @ [CHR 0x5C] @ ''ab'' @ [CHR '',''] @ ''s:g:=:c'') None new_Parser)
              = Inl (InvalidEscapedCharacter (CHR '',''))"
    using both [THEN conjunct2] c by blast
  have whole: "fst (extract' sample_runtime (''s:f:=:'' @ [CHR 0x5C] @ ''ab:c'') None new_Parser)
     = Inr [descriptor DT_string ''f'' Op_eq False None (VString ''ab:c'')]"
    by code_simp
  show ?thesis using a b whole by simp
qed

text \<open>
  C7. Take a clause at the end of a query, its value text written with a backslash
  before every colon (\<open>escape_colons\<close>). The header fields are the ones before the value, and
  the text handed to \<^verbatim>\<open>transform\<close> is the value text with its colons, for every declared
  type, outside a group and inside one. For a string clause with a legal operator the
  descriptor's value is that text, or inside a group the list of its pieces.
\<close>

theorem C7_escaped_colon_is_literal:
  assumes "scan rt pre (start options p) = (None, q)" "fresh q"
    and "list_all plain f" "f \<noteq> []" "isValidKey q f"
    and "opn = CHR ''['' \<or> opn = CHR ''(''" "cl = CHR '']'' \<or> cl = CHR '')''"
    and "list_all (text_char False) v" "v \<noteq> []"
    and "list_all (text_char True) body"
  shows "fst (extract' rt (pre @ clause_header ty f op @ escape_colons v) options p)
           = listed (buffer q) (transform rt (descriptor ty f op False None v))
         \<and> fst (extract' rt (pre @ clause_header ty f op @ [opn] @ escape_colons body @ [cl])
                  options p)
           = listed (buffer q)
               (transform rt (descriptor ty f op True (Some (group_delimiter cl)) body))
         \<and> (forStringTypeOperator (Some op) \<longrightarrow>
              fst (extract' rt (pre @ clause_header DT_string f op @ escape_colons v) options p)
                = Inr (buffer q @ [descriptor DT_string f op False None (VString v)])
              \<and> fst (extract' rt
                       (pre @ clause_header DT_string f op @ [opn] @ escape_colons body @ [cl])
                       options p)
                = Inr (buffer q @ [descriptor DT_string f op True (Some (group_delimiter cl))
                                     (VStrings (split (Some (group_delimiter cl)) body))]))"
proof -
  have scalar: "fst (extract' rt (pre @ clause_header ty' f op @ escape_colons v) options p)
           = listed (buffer q) (transform rt (descriptor ty' f op False None v))" for ty'
    using assms(1-5,8,9) by (rule extract_scalar_clause)
  have grp: "fst (extract' rt (pre @ clause_header ty' f op @ [opn] @ escape_colons body @ [cl])
                  options p)
           = listed (buffer q)
               (transform rt (descriptor ty' f op True (Some (group_delimiter cl)) body))" for ty'
    using assms(1-5,10,6,7) by (rule extract_group_clause)
  show ?thesis
    using scalar [of ty] grp [of ty] scalar [of DT_string] grp [of DT_string]
    by (simp add: transform_string listed_def)
qed

text \<open>
  The example of the claim, the group with the one element \<^verbatim>\<open>message me\<close> and an
  escaped colon after it, and the scalar value of \<^verbatim>\<open>src/app.js\<close> with an escaped colon
  after \<^verbatim>\<open>Special notes include\<close>.
\<close>

theorem C7_message_me_example:
  "fst (extract' sample_runtime (''s:comment:!~:[message me'' @ [CHR 0x5C] @ '':]'') None
          new_Parser)
     = Inr [descriptor DT_string ''comment'' Op_notRegex True (Some (CHR '','')) 
              (VStrings [''message me:''])]
   \<and> fst (extract' sample_runtime
            (''s:note:=:Special notes include'' @ [CHR 0x5C] @ '': details'') None new_Parser)
     = Inr [descriptor DT_string ''note'' Op_eq False None
              (VString ''Special notes include: details'')]"
proof -
  let ?q = "start None new_Parser :: int Parser"
  have 1: "scan sample_runtime [] ?q = (None, ?q)" by simp
  have 2: "fresh ?q" by (rule fresh_start)
  have 3: "list_all plain ''comment''" "''comment'' \<noteq> []" by (simp_all add: plain_def)
  have 4: "isValidKey ?q ''comment''" by code_simp
  have 5: "list_all plain ''note''" "''note'' \<noteq> []" by (simp_all add: plain_def)
  have 6: "isValidKey ?q ''note''" by code_simp
  have o: "CHR ''['' = CHR ''['' \<or> CHR ''['' = CHR ''(''" by simp
  have c: "CHR '']'' = CHR '']'' \<or> CHR '']'' = CHR '')''" by simp
  have v1: "list_all (text_char False) ''x''" "''x'' \<noteq> []"
    by (simp_all add: text_char_def plain_def)
  have v2: "list_all (text_char False) ''Special notes include: details''"
    "''Special notes include: details'' \<noteq> []"
    by (simp_all add: text_char_def plain_def)
  have b: "list_all (text_char True) ''message me:''"
    by (simp add: text_char_def plain_def)
  have s1: "forStringTypeOperator (Some Op_notRegex)" by (simp add: forStringTypeOperator_def)
  have s2: "forStringTypeOperator (Some Op_eq)" by (simp add: forStringTypeOperator_def)
  have sp: "split (Some (CHR '','')) ''message me:'' = [''message me:'']" by code_simp
  have buf: "buffer ?q = []" by (simp add: start_def reset_def)
  note grp = C7_escaped_colon_is_literal [OF 1 2 3 4 o c v1 b,
      where op = Op_notRegex and ty = DT_string,
      THEN conjunct2, THEN conjunct2, rule_format, OF s1, THEN conjunct2]
  note scalar = C7_escaped_colon_is_literal [OF 1 2 5 6 o c v2 b,
      where op = Op_eq and ty = DT_string,
      THEN conjunct2, THEN conjunct2, rule_format, OF s2, THEN conjunct1]
  show ?thesis
    using grp scalar sp buf
    by (simp add: clause_header_def group_delimiter_def)
qed

text \<open>
  C8, as the code has it. For a number or date group with the operator \<^verbatim>\<open>><\<close> or
  \<^verbatim>\<open>>!<\<close>, split on the delimiter of the closing bracket: a token that does not parse
  gives ``Invalid value types'', whatever the number of tokens, because that check comes
  first; when all tokens parse and there are not exactly two, the error names the count;
  two tokens that parse give the two numbers in their order.
\<close>

theorem C8_range_needs_two_tokens:
  assumes "scan rt pre (start options p) = (None, q)" "fresh q"
    and "list_all plain f" "f \<noteq> []" "isValidKey q f"
    and "opn = CHR ''['' \<or> opn = CHR ''(''" "cl = CHR '']'' \<or> cl = CHR '')''"
    and "ty = DT_number \<or> ty = DT_date"
    and "op = Op_between \<or> op = Op_notBetween"
    and "list_all group_char body"
  shows "(None \<in> set (map (token_parser rt ty) (split (Some (group_delimiter cl)) body)) \<longrightarrow>
            fst (extract' rt (pre @ clause_header ty f op @ [opn] @ body @ [cl]) options p)
              = Inl InvalidValueTypes)
         \<and> (map (token_parser rt ty) (split (Some (group_delimiter cl)) body) = map Some ns \<longrightarrow>
            length ns \<noteq> 2 \<longrightarrow>
            fst (extract' rt (pre @ clause_header ty f op @ [opn] @ body @ [cl]) options p)
              = Inl (WrongNumberOfArguments (length ns)))
         \<and> (map (token_parser rt ty) (split (Some (group_delimiter cl)) body) = [Some a, Some b] \<longrightarrow>
            fst (extract' rt (pre @ clause_header ty f op @ [opn] @ body @ [cl]) options p)
              = Inr (buffer q @ [descriptor ty f op True (Some (group_delimiter cl))
                                   (VNumbers [a, b])]))"
proof -
  let ?d = "Some (group_delimiter cl)"
  have range: "isRangeTypeOperator (Some op)"
    using assms(9) by (auto simp add: isRangeTypeOperator_def)
  have "fst (extract' rt (pre @ clause_header ty f op @ [opn] @ escape_colons body @ [cl])
               options p) =
          listed (buffer q) (transform rt (descriptor ty f op True ?d body))"
    using assms(1-5) group_char_text [OF assms(10)] assms(6,7) by (rule extract_group_clause)
  then have res: "fst (extract' rt (pre @ clause_header ty f op @ [opn] @ body @ [cl]) options p)
                    = listed (buffer q) (transform rt (descriptor ty f op True ?d body))"
    by (simp add: escape_colons_group [OF assms(10)])
  have nan: "fst (extract' rt (pre @ clause_header ty f op @ [opn] @ body @ [cl]) options p)
               = Inl InvalidValueTypes"
    if "None \<in> set (map (token_parser rt ty) (split ?d body))"
    using res by (simp add: transform_numeric_NaN [OF assms(8) that] listed_def)
  have count: "fst (extract' rt (pre @ clause_header ty f op @ [opn] @ body @ [cl]) options p)
               = Inl (WrongNumberOfArguments (length ns))"
    if "map (token_parser rt ty) (split ?d body) = map Some ns" "length ns \<noteq> 2"
    using res range that(2) by (simp add: transform_numeric_multi [OF assms(8) that(1)] listed_def)
  have two: "fst (extract' rt (pre @ clause_header ty f op @ [opn] @ body @ [cl]) options p)
               = Inr (buffer q @ [descriptor ty f op True ?d (VNumbers [a, b])])"
    if "map (token_parser rt ty) (split ?d body) = [Some a, Some b]"
  proof -
    have m: "map (token_parser rt ty) (split ?d body) = map Some [a, b]"
      using that by simp
    have "transform rt (descriptor ty f op True ?d body)
            = Inr (descriptor ty f op True ?d (VNumbers [a, b]))"
      using range by (simp add: transform_numeric_multi [OF assms(8) m])
    then show ?thesis
      using res by (simp add: listed_def)
  qed
  show ?thesis
    using nan count two by blast
qed

text \<open>Two, three, and an unparsable token.\<close>

theorem C8_price_examples:
  "fst (extract' sample_runtime ''n:price:>!<:[0,99]'' None new_Parser)
     = Inr [descriptor DT_number ''price'' Op_notBetween True (Some (CHR '','')) (VNumbers [0, 99])]
   \<and> fst (extract' sample_runtime ''n:price:>!<:[1,2,3]'' None new_Parser)
     = Inl (WrongNumberOfArguments 3)
   \<and> fst (extract' sample_runtime ''n:price:>!<:[0,x]'' None new_Parser) = Inl InvalidValueTypes"
proof -
  let ?q = "start None new_Parser :: int Parser"
  have 1: "scan sample_runtime [] ?q = (None, ?q)" by simp
  have 2: "fresh ?q" by (rule fresh_start)
  have 3: "list_all plain ''price''" "''price'' \<noteq> []" by (simp_all add: plain_def)
  have 4: "isValidKey ?q ''price''" by code_simp
  have o: "CHR ''['' = CHR ''['' \<or> CHR ''['' = CHR ''(''" by simp
  have c: "CHR '']'' = CHR '']'' \<or> CHR '']'' = CHR '')''" by simp
  have t: "DT_number = DT_number \<or> DT_number = DT_date" by simp
  have r: "Op_notBetween = Op_between \<or> Op_notBetween = Op_notBetween" by simp
  have b1: "list_all group_char ''0,99''" by (simp add: group_char_def plain_def)
  have b2: "list_all group_char ''1,2,3''" by (simp add: group_char_def plain_def)
  have b3: "list_all group_char ''0,x''" by (simp add: group_char_def plain_def)
  have p1: "map (token_parser sample_runtime DT_number)
              (split (Some (group_delimiter (CHR '']''))) ''0,99'') = [Some 0, Some 99]"
    by code_simp
  have p2: "map (token_parser sample_runtime DT_number)
              (split (Some (group_delimiter (CHR '']''))) ''1,2,3'') = map Some [1, 2, 3]"
    by code_simp
  have l2: "length [1, 2, 3 :: int] \<noteq> 2" by simp
  have p3: "None \<in> set (map (token_parser sample_runtime DT_number)
              (split (Some (group_delimiter (CHR '']''))) ''0,x''))"
    by code_simp
  have buf: "buffer ?q = []" by (simp add: start_def reset_def)
  note two = C8_range_needs_two_tokens [OF 1 2 3 4 o c t r b1,
      THEN conjunct2, THEN conjunct2, rule_format, OF p1]
  note three = C8_range_needs_two_tokens [OF 1 2 3 4 o c t r b2,
      THEN conjunct2, THEN conjunct1, rule_format, OF p2 l2]
  note nan = C8_range_needs_two_tokens [OF 1 2 3 4 o c t r b3,
      THEN conjunct1, rule_format, OF p3]
  show ?thesis
    using two three nan buf
    by (simp add: clause_header_def group_delimiter_def)
qed

text \<open>
  C8 as stated asks for the error that names the count whenever the group does not split
  into two; \<^verbatim>\<open>[a,b,c]\<close> splits into three and gives the other error.
\<close>

theorem C8_not_two_unparsed_counterexample:
  "length (split (Some (CHR '','')) ''a,b,c'') = 3
   \<and> fst (extract' sample_runtime ''n:price:><:[a,b,c]'' None new_Parser) = Inl InvalidValueTypes"
  by code_simp

text \<open>
  C9. \<^verbatim>\<open>extract\<close> assigns every field of the instance before it reads the first
  character: a new output list, the merged options, and through \<^verbatim>\<open>reset\<close> the filter,
  the flag, the character and the stack. So a call returns the same result, and leaves
  the same instance, whatever state the instance was in: two calls with the same
  arguments agree, also when the second runs on the instance the first (or any other
  call, failed or not) has left behind.
\<close>

theorem C9_extract_rebuilds_state:
  "extract' rt str options p = extract' rt str options p'
   \<and> fst (extract' rt str options (snd (extract' rt str0 options0 p)))
       = fst (extract' rt str options p)"
proof -
  have "extract' rt str options q = extract' rt str options q'" for q q' :: "'a Parser"
    unfolding extract'_def by (simp only: start_independent [of options q q'])
  then show ?thesis by metis
qed

text \<open>
  C10. Let \<open>pre\<close> be read without a throw, leaving neither a field nor an operator set
  (nothing read yet, a clause just finished, or only a type so far), and let plain text
  \<open>w\<close> follow up to the end of the input. Then \<^verbatim>\<open>extract\<close> returns exactly the descriptors
  pushed while reading \<open>pre\<close>: the text left on the stack gives no descriptor and no
  error.
\<close>

theorem C10_headerless_tail_is_dropped:
  assumes "scan rt pre (start options p) = (None, q)"
    and "\<not> truthy (fq_field (filter' q))" "fq_operator (filter' q) = None"
    and "list_all plain w"
  shows "fst (extract' rt (pre @ w) options p) = Inr (buffer q)"
proof -
  let ?e = "q\<lparr>stack := stack q @ w, chr := (if w = [] then chr q else [last w])\<rparr>"
  have "scan rt w q = (None, ?e)"
    using assms(4) by (rule scan_plain)
  then have "scan rt (pre @ w) (start options p) = (None, ?e)"
    by (rule scan_seq [OF assms(1)])
  then show ?thesis
    using assms(2,3) by (simp add: extract'_def finish_def)
qed

text \<open>Text after the last separator, and an input without any colon.\<close>

theorem C10_tail_examples:
  "fst (extract' sample_runtime ''s:a:=:x,zzz'' None new_Parser)
     = Inr [descriptor DT_string ''a'' Op_eq False None (VString ''x'')]
   \<and> fst (extract' sample_runtime ''zzz'' None new_Parser) = Inr []"
proof -
  let ?s = "start None new_Parser :: int Parser"
  let ?q = "snd (scan sample_runtime ''s:a:=:x,'' ?s)"
  have "fst (scan sample_runtime ''s:a:=:x,'' ?s) = None" by code_simp
  then have 1: "scan sample_runtime ''s:a:=:x,'' ?s = (None, ?q)"
    by (rule scan_prefix_state)
  have 2: "\<not> truthy (fq_field (filter' ?q))" by code_simp
  have 3: "fq_operator (filter' ?q) = None" by code_simp
  have 4: "list_all plain ''zzz''" by (simp add: plain_def)
  have buf: "buffer ?q = [descriptor DT_string ''a'' Op_eq False None (VString ''x'')]"
    by code_simp
  have 5: "scan sample_runtime [] ?s = (None, ?s)" by simp
  have 6: "\<not> truthy (fq_field (filter' ?s))" by code_simp
  have 7: "fq_operator (filter' ?s) = None" by code_simp
  have buf0: "buffer ?s = []" by (simp add: start_def reset_def)
  show ?thesis
    using C10_headerless_tail_is_dropped [OF 1 2 3 4]
      C10_headerless_tail_is_dropped [OF 5 6 7 4] buf buf0
    by simp
qed

end
